theory Spec2Isabelle
  imports Complex_Main
begin

section \<open>Shared primitives of the Gatekeeper and the Trusted Host\<close>

text \<open>
  Wall-clock readings (\<^verbatim>\<open>time.time()\<close>) are modelled as real numbers; every function
  that reads the clock takes the reading as an argument.
\<close>

type_synonym timestamp = real

subsection \<open>CircuitBreaker (gatekeeper.py 31-59, trusted\_host.py 29-57)\<close>

datatype cb_state = Closed | Open | HalfOpen

text \<open>
  The attributes \<^verbatim>\<open>threshold\<close> and \<^verbatim>\<open>timeout\<close> are set once in
  \<^verbatim>\<open>__init__\<close> and never assigned again; they are constants here. The failure
  counter starts at 0 and is only incremented or reset to 0.
\<close>

record circuit_breaker =
  failures :: nat
  last_failure_time :: timestamp
  state :: cb_state

definition threshold :: nat where
  "threshold = 5"

definition timeout :: real where
  "timeout = 60"

definition cb_init :: circuit_breaker where
  "cb_init = \<lparr>failures = 0, last_failure_time = 0, state = Closed\<rparr>"

definition record_failure :: "timestamp \<Rightarrow> circuit_breaker \<Rightarrow> circuit_breaker" where
  "record_failure now cb =
     (let cb1 = cb\<lparr>failures := failures cb + 1\<rparr>;
          cb2 = cb1\<lparr>last_failure_time := now\<rparr>
      in if failures cb2 \<ge> threshold then cb2\<lparr>state := Open\<rparr> else cb2)"

definition record_success :: "circuit_breaker \<Rightarrow> circuit_breaker" where
  "record_success cb = (cb\<lparr>failures := 0\<rparr>)\<lparr>state := Closed\<rparr>"

text \<open>\<^verbatim>\<open>can_execute\<close> returns its answer together with the updated breaker.\<close>

definition can_execute :: "timestamp \<Rightarrow> circuit_breaker \<Rightarrow> bool \<times> circuit_breaker" where
  "can_execute now cb =
     (if state cb = Open then
        (if now - last_failure_time cb > timeout then (True, cb\<lparr>state := HalfOpen\<rparr>)
         else (False, cb))
      else (True, cb))"

text \<open>A call on the breaker, with the clock reading it makes (if any).\<close>

datatype cb_op = RecordFailure timestamp | RecordSuccess | CanExecute timestamp

fun cb_step :: "cb_op \<Rightarrow> circuit_breaker \<Rightarrow> circuit_breaker" where
  "cb_step (RecordFailure now) cb = record_failure now cb"
| "cb_step RecordSuccess cb = record_success cb"
| "cb_step (CanExecute now) cb = snd (can_execute now cb)"

text \<open>The breaker after a sequence of calls, and the list of all breakers along the way
  (element \<open>k\<close> is the breaker just before call \<open>k\<close>; the last element is the final one).\<close>

fun cb_run :: "circuit_breaker \<Rightarrow> cb_op list \<Rightarrow> circuit_breaker" where
  "cb_run cb [] = cb"
| "cb_run cb (x # xs) = cb_run (cb_step x cb) xs"

fun cb_trace :: "circuit_breaker \<Rightarrow> cb_op list \<Rightarrow> circuit_breaker list" where
  "cb_trace cb [] = [cb]"
| "cb_trace cb (x # xs) = cb # cb_trace (cb_step x cb) xs"

definition cb_inv :: "circuit_breaker \<Rightarrow> bool" where
  "cb_inv cb = (failures cb = 0 \<longrightarrow> state cb = Closed)"

text \<open>Is there a call \<open>k\<close> strictly between steps \<open>i\<close> and \<open>j\<close> that is a
  \<^verbatim>\<open>record_success\<close> made while the breaker is half-open?\<close>

definition half_open_success_between ::
  "circuit_breaker \<Rightarrow> cb_op list \<Rightarrow> nat \<Rightarrow> nat \<Rightarrow> bool" where
  "half_open_success_between cb ops i j =
     list_ex (\<lambda>k. state (cb_trace cb ops ! k) = HalfOpen \<and> ops ! k = RecordSuccess)
       [Suc i ..< j]"

text \<open>The discipline of a sequential request handler: \<^verbatim>\<open>record_success\<close> is called
  only after \<^verbatim>\<open>can_execute\<close> has answered true, hence never on an open breaker.\<close>

definition success_never_while_open :: "circuit_breaker \<Rightarrow> cb_op list \<Rightarrow> bool" where
  "success_never_while_open cb ops =
     list_all (\<lambda>k. ops ! k = RecordSuccess \<longrightarrow> state (cb_trace cb ops ! k) \<noteq> Open)
       [0 ..< length ops]"

subsection \<open>Rate limiter (gatekeeper.py 147-153, trusted\_host.py 73-79)\<close>

type_synonym client = string

text \<open>\<^verbatim>\<open>request_counts\<close> is a \<^verbatim>\<open>defaultdict(list)\<close>: a client without an entry
  reads as the empty list.\<close>

type_synonym request_counts = "client \<rightharpoonup> timestamp list"

definition RATE_WINDOW :: real where
  "RATE_WINDOW = 60"

definition GK_RATE_LIMIT :: nat where
  "GK_RATE_LIMIT = 1000"

definition TH_RATE_LIMIT :: nat where
  "TH_RATE_LIMIT = 2000"

definition window_of :: "request_counts \<Rightarrow> client \<Rightarrow> timestamp list" where
  "window_of rc c = (case rc c of None \<Rightarrow> [] | Some ts \<Rightarrow> ts)"

text \<open>The two services run the same body against their own \<^verbatim>\<open>RATE_LIMIT\<close>, which is
  the first argument here.\<close>

definition check_rate_limit ::
  "nat \<Rightarrow> timestamp \<Rightarrow> client \<Rightarrow> request_counts \<Rightarrow> bool \<times> request_counts" where
  "check_rate_limit limit current_time client_ip rc =
     (let rc1 = rc(client_ip \<mapsto>
                 filter (\<lambda>t. current_time - t < RATE_WINDOW) (window_of rc client_ip));
          rc2 = rc1(client_ip \<mapsto> window_of rc1 client_ip @ [current_time])
      in (length (window_of rc2 client_ip) \<le> limit, rc2))"

definition gk_check_rate_limit ::
  "timestamp \<Rightarrow> client \<Rightarrow> request_counts \<Rightarrow> bool \<times> request_counts" where
  "gk_check_rate_limit = check_rate_limit GK_RATE_LIMIT"

definition th_check_rate_limit ::
  "timestamp \<Rightarrow> client \<Rightarrow> request_counts \<Rightarrow> bool \<times> request_counts" where
  "th_check_rate_limit = check_rate_limit TH_RATE_LIMIT"

text \<open>Successive checks by one client at the given clock readings: the answers in order,
  and the table afterwards.\<close>

fun checks ::
  "nat \<Rightarrow> client \<Rightarrow> timestamp list \<Rightarrow> request_counts \<Rightarrow> bool list \<times> request_counts" where
  "checks limit c [] rc = ([], rc)"
| "checks limit c (t # ts) rc =
     (let (b, rc1) = check_rate_limit limit t c rc;
          (bs, rc2) = checks limit c ts rc1
      in (b # bs, rc2))"

section \<open>Proxy routing engine (proxy.py)\<close>

type_synonym host = string

text \<open>
  The data tier is outside the program. Its answers are given by four functions over an
  arbitrary world state \<open>'w\<close>: whether \<^verbatim>\<open>mysql.connector.connect\<close> to a host and port
  succeeds, what running a statement on an open connection does, the clock, and the random
  index drawn by \<^verbatim>\<open>random.choice\<close>. The serialised rows of a result (or \<^verbatim>\<open>None\<close>) are
  a value of type \<open>'r\<close>.
\<close>

datatype 'r run_outcome =
    Executed 'r
  | MySQLError string
  | OtherError string
  | CloseRaised

record ('w, 'r) data_tier =
  connect :: "host \<Rightarrow> nat \<Rightarrow> 'w \<Rightarrow> bool \<times> 'w"
  run_query :: "host \<Rightarrow> nat \<Rightarrow> string \<Rightarrow> 'w \<Rightarrow> 'r run_outcome \<times> 'w"
  clock :: "'w \<Rightarrow> real \<times> 'w"
  pick :: "'w \<Rightarrow> nat \<times> 'w"

text \<open>The response dictionaries \<^verbatim>\<open>{"status": "success", "result": r}\<close> and
  \<^verbatim>\<open>{"status": "error", "message": m}\<close>.\<close>

datatype 'r presult = Success 'r | Failure string

datatype py_exn = IndexError | CleanupError

text \<open>A run of the proxy threads the world and the list of connection attempts made so
  far, each with its host and port (the source logs every attempt the same way).\<close>

record 'w proxy_run =
  world :: 'w
  conns :: "(host \<times> nat) list"

record proxy_manager =
  manager_host :: host
  worker_hosts :: "host list"
  current_strategy :: string

definition strategy_ports :: "string \<rightharpoonup> nat" where
  "strategy_ports =
     [''direct'' \<mapsto> 3306, ''random'' \<mapsto> 3307, ''customized'' \<mapsto> 3308]"

text \<open>\<^verbatim>\<open>port = self.strategy_ports.get(strategy, 3306) if strategy else 3306\<close>; an absent
  and an empty strategy are both falsy.\<close>

definition connection_port :: "string option \<Rightarrow> nat" where
  "connection_port strategy =
     (case strategy of
        None \<Rightarrow> 3306
      | Some s \<Rightarrow> if s = [] then 3306
                  else (case strategy_ports s of Some p \<Rightarrow> p | None \<Rightarrow> 3306))"

definition get_connection ::
  "('w, 'r) data_tier \<Rightarrow> host \<Rightarrow> string option \<Rightarrow> 'w proxy_run \<Rightarrow> bool \<times> 'w proxy_run" where
  "get_connection dt h strategy st =
     (let port = connection_port strategy;
          (ok, w) = connect dt h port (world st)
      in (ok, st\<lparr>world := w, conns := conns st @ [(h, port)]\<rparr>))"

text \<open>\<^verbatim>\<open>_execute_query\<close> returns a response dictionary on every path of its
  \<^verbatim>\<open>try\<close>; only a \<^verbatim>\<open>close()\<close> that raises inside \<^verbatim>\<open>finally\<close> escapes it.\<close>

definition execute_query ::
  "('w, 'r) data_tier \<Rightarrow> host \<Rightarrow> string \<Rightarrow> string option \<Rightarrow> 'w proxy_run
     \<Rightarrow> (py_exn + 'r presult) \<times> 'w proxy_run" where
  "execute_query dt h query strategy st =
     (let (conn, st1) = get_connection dt h strategy st
      in if \<not> conn then (Inr (Failure (''Failed to connect to MySQL on '' @ h)), st1)
         else
           (let (out, w) = run_query dt h (connection_port strategy) query (world st1);
                st2 = st1\<lparr>world := w\<rparr>
            in case out of
                 Executed r \<Rightarrow> (Inr (Success r), st2)
               | MySQLError m \<Rightarrow> (Inr (Failure (''MySQL Error: '' @ m)), st2)
               | OtherError m \<Rightarrow> (Inr (Failure m), st2)
               | CloseRaised \<Rightarrow> (Inl CleanupError, st2)))"

text \<open>Each worker in turn; a failed result and a raised exception are both only logged.\<close>

fun replicate_to_workers ::
  "('w, 'r) data_tier \<Rightarrow> host list \<Rightarrow> string \<Rightarrow> 'w proxy_run \<Rightarrow> 'w proxy_run" where
  "replicate_to_workers dt [] query st = st"
| "replicate_to_workers dt (worker # rest) query st =
     replicate_to_workers dt rest query (snd (execute_query dt worker query None st))"

text \<open>A probe latency: a measured time, or \<^verbatim>\<open>float('inf')\<close> for a failed probe.\<close>

datatype latency = Measured real | Infinite

fun lat_less :: "latency \<Rightarrow> latency \<Rightarrow> bool" where
  "lat_less (Measured a) (Measured b) = (a < b)"
| "lat_less (Measured a) Infinite = True"
| "lat_less Infinite b = False"

text \<open>\<^verbatim>\<open>response_times\<close> is a dictionary: keys in insertion order, an assignment to a
  present key replaces its value in place.\<close>

type_synonym response_times = "(host \<times> latency) list"

fun dict_set :: "host \<Rightarrow> latency \<Rightarrow> response_times \<Rightarrow> response_times" where
  "dict_set k v [] = [(k, v)]"
| "dict_set k v (p # ps) = (if fst p = k then (k, v) # ps else p # dict_set k v ps)"

fun probe_workers ::
  "('w, 'r) data_tier \<Rightarrow> host list \<Rightarrow> response_times \<Rightarrow> 'w proxy_run
     \<Rightarrow> response_times \<times> 'w proxy_run" where
  "probe_workers dt [] rts st = (rts, st)"
| "probe_workers dt (worker # rest) rts st =
     (let (start_time, w1) = clock dt (world st);
          (conn, st1) = get_connection dt worker (Some ''customized'') (st\<lparr>world := w1\<rparr>)
      in if conn then
           (let (end_time, w2) = clock dt (world st1)
            in probe_workers dt rest
                 (dict_set worker (Measured (end_time - start_time)) rts)
                 (st1\<lparr>world := w2\<rparr>))
         else probe_workers dt rest (dict_set worker Infinite rts) st1)"

text \<open>\<^verbatim>\<open>min(response_times, key=response_times.get)\<close>: the running best is replaced only
  by a strictly smaller value, so the first key with the least value wins.\<close>

fun min_item :: "host \<times> latency \<Rightarrow> response_times \<Rightarrow> host \<times> latency" where
  "min_item best [] = best"
| "min_item best (p # ps) = min_item (if lat_less (snd p) (snd best) then p else best) ps"

definition first_worker :: "host list \<Rightarrow> py_exn + host" where
  "first_worker ws = (case ws of [] \<Rightarrow> Inl IndexError | w # _ \<Rightarrow> Inr w)"

definition get_fastest_worker ::
  "('w, 'r) data_tier \<Rightarrow> host list \<Rightarrow> 'w proxy_run \<Rightarrow> (py_exn + host) \<times> 'w proxy_run" where
  "get_fastest_worker dt ws st =
     (let (rts, st1) = probe_workers dt ws [] st
      in if rts = [] \<or> list_all (\<lambda>p. snd p = Infinite) rts then (first_worker ws, st1)
         else (Inr (fst (min_item (hd rts) (tl rts))), st1))"

definition random_choice ::
  "('w, 'r) data_tier \<Rightarrow> host list \<Rightarrow> 'w proxy_run \<Rightarrow> (py_exn + host) \<times> 'w proxy_run" where
  "random_choice dt ws st =
     (if ws = [] then (Inl IndexError, st)
      else (let (n, w) = pick dt (world st)
            in (Inr (ws ! (n mod length ws)), st\<lparr>world := w\<rparr>)))"

definition select_read_host ::
  "('w, 'r) data_tier \<Rightarrow> proxy_manager \<Rightarrow> 'w proxy_run \<Rightarrow> (py_exn + host) \<times> 'w proxy_run" where
  "select_read_host dt pm st =
     (if current_strategy pm = ''direct'' then (first_worker (worker_hosts pm), st)
      else if current_strategy pm = ''random'' then random_choice dt (worker_hosts pm) st
      else if current_strategy pm = ''customized'' then
        get_fastest_worker dt (worker_hosts pm) st
      else (first_worker (worker_hosts pm), st))"

definition internal_error :: "'r presult" where
  "internal_error = Failure ''Internal error in Proxy''"

fun is_error :: "'r presult \<Rightarrow> bool" where
  "is_error (Failure m) = True"
| "is_error (Success r) = False"

text \<open>\<^verbatim>\<open>route_request\<close>: the outer \<^verbatim>\<open>except Exception\<close> turns every escaping exception
  into the internal-error response.\<close>

definition route_request ::
  "('w, 'r) data_tier \<Rightarrow> proxy_manager \<Rightarrow> string \<Rightarrow> bool \<Rightarrow> 'w proxy_run
     \<Rightarrow> 'r presult \<times> 'w proxy_run" where
  "route_request dt pm query is_write st =
     (if is_write then
        (case execute_query dt (manager_host pm) query None st of
           (Inl e, st1) \<Rightarrow> (internal_error, st1)
         | (Inr result, st1) \<Rightarrow>
             if \<not> is_error result
             then (result, replicate_to_workers dt (worker_hosts pm) query st1)
             else (result, st1))
      else
        (case select_read_host dt pm st of
           (Inl e, st1) \<Rightarrow> (internal_error, st1)
         | (Inr target_host, st1) \<Rightarrow>
             (case execute_query dt target_host query (Some (current_strategy pm)) st1 of
                (Inl e, st2) \<Rightarrow> (internal_error, st2)
              | (Inr result, st2) \<Rightarrow>
                  if is_error result \<and> target_host \<noteq> manager_host pm then
                    (case execute_query dt (manager_host pm) query None st2 of
                       (Inl e, st3) \<Rightarrow> (internal_error, st3)
                     | (Inr fallback, st3) \<Rightarrow> (fallback, st3))
                  else (result, st2))))"


subsection \<open>Three concrete data tiers\<close>

text \<open>Only the manager accepts connections; every statement that runs succeeds.\<close>

definition only_manager_up :: "(unit, nat) data_tier" where
  "only_manager_up =
     \<lparr>connect = (\<lambda>h p w. (h = ''m'', w)),
      run_query = (\<lambda>h p q w. (Executed 1, w)),
      clock = (\<lambda>w. (0, w)),
      pick = (\<lambda>w. (0, w))\<rparr>"


text \<open>The world is the clock. Worker \<open>w1\<close> refuses connections after 2 seconds,
  \<open>w2\<close> accepts after 5 seconds, every other host after 2 seconds.\<close>

definition uneven_workers :: "(real, nat) data_tier" where
  "uneven_workers =
     \<lparr>connect = (\<lambda>h p w. (h \<noteq> ''w1'', w + (if h = ''w2'' then 5 else 2))),
      run_query = (\<lambda>h p q w. (Executed 1, w)),
      clock = (\<lambda>w. (w, w)),
      pick = (\<lambda>w. (0, w))\<rparr>"

section \<open>QueryValidator (gatekeeper.py 61-135)\<close>

text \<open>
  Queries are ASCII text. \<^verbatim>\<open>str.upper\<close> maps the letters a-z to A-Z and leaves every
  other ASCII character alone.
\<close>

definition upper_char :: "char \<Rightarrow> char" where
  "upper_char c =
     (case map_of (zip ''abcdefghijklmnopqrstuvwxyz'' ''ABCDEFGHIJKLMNOPQRSTUVWXYZ'') c of
        Some u \<Rightarrow> u
      | None \<Rightarrow> c)"

definition upper :: "string \<Rightarrow> string" where
  "upper s = map upper_char s"

text \<open>Every line feed becomes a space.\<close>

definition replace_newlines :: "string \<Rightarrow> string" where
  "replace_newlines s = map (\<lambda>c. if c = CHR 0x0A then CHR '' '' else c) s"

text \<open>The ASCII characters that \<^verbatim>\<open>str.strip()\<close> removes and that the class
  \<^verbatim>\<open>\s\<close> matches: tab, line feed, vertical tab, form feed, carriage return, the
  separators 0x1C-0x1F, and space.\<close>

definition is_space :: "char \<Rightarrow> bool" where
  "is_space c =
     (let n = (of_char c :: nat) in (9 \<le> n \<and> n \<le> 13) \<or> (28 \<le> n \<and> n \<le> 32))"

definition strip :: "string \<Rightarrow> string" where
  "strip s = rev (dropWhile is_space (rev (dropWhile is_space s)))"

text \<open>\<^verbatim>\<open>s.startswith(p)\<close> and \<^verbatim>\<open>p in s\<close>.\<close>

fun starts_with :: "string \<Rightarrow> string \<Rightarrow> bool" where
  "starts_with s [] = True"
| "starts_with [] (p # ps) = False"
| "starts_with (c # cs) (p # ps) = (c = p \<and> starts_with cs ps)"

fun contains :: "string \<Rightarrow> string \<Rightarrow> bool" where
  "contains [] p = (p = [])"
| "contains (c # cs) p = (starts_with (c # cs) p \<or> contains cs p)"

text \<open>
  The regular expressions of the validator use literals, \<^verbatim>\<open>\b\<close>, \<^verbatim>\<open>\s\<close>,
  \<^verbatim>\<open>\w\<close>, \<^verbatim>\<open>.\<close>, a two-character class, \<^verbatim>\<open>*\<close> and \<^verbatim>\<open>+\<close> on single
  characters, alternation, and one pattern under \<^verbatim>\<open>(?i)\<close>. \<open>rx_match r s i\<close> lists
  the positions at which a match of \<open>r\<close> starting at position \<open>i\<close> of \<open>s\<close> can end;
  \<^verbatim>\<open>re.search\<close> finds a match iff some start position has one.
\<close>

definition is_word_char :: "char \<Rightarrow> bool" where
  "is_word_char c =
     (let n = (of_char c :: nat)
      in (48 \<le> n \<and> n \<le> 57) \<or> (65 \<le> n \<and> n \<le> 90) \<or> n = 95 \<or> (97 \<le> n \<and> n \<le> 122))"

definition at_boundary :: "string \<Rightarrow> nat \<Rightarrow> bool" where
  "at_boundary s i =
     ((0 < i \<and> i \<le> length s \<and> is_word_char (s ! (i - 1)))
        \<noteq> (i < length s \<and> is_word_char (s ! i)))"

datatype rx =
    Eps
  | Str string
  | StrI string
  | One "char \<Rightarrow> bool"
  | Many "char \<Rightarrow> bool"
  | Many1 "char \<Rightarrow> bool"
  | Boundary
  | Seq rx rx
  | Alt rx rx

fun rx_match :: "rx \<Rightarrow> string \<Rightarrow> nat \<Rightarrow> nat list" where
  "rx_match Eps s i = [i]"
| "rx_match (Str l) s i = (if starts_with (drop i s) l then [i + length l] else [])"
| "rx_match (StrI l) s i =
     (if starts_with (upper (drop i s)) (upper l) then [i + length l] else [])"
| "rx_match (One P) s i = (if i < length s \<and> P (s ! i) then [Suc i] else [])"
| "rx_match (Many P) s i = map (\<lambda>k. i + k) [0 ..< Suc (length (takeWhile P (drop i s)))]"
| "rx_match (Many1 P) s i = map (\<lambda>k. i + k) [1 ..< Suc (length (takeWhile P (drop i s)))]"
| "rx_match Boundary s i = (if at_boundary s i then [i] else [])"
| "rx_match (Seq a b) s i = concat (map (rx_match b s) (rx_match a s i))"
| "rx_match (Alt a b) s i = rx_match a s i @ rx_match b s i"

definition re_search :: "rx \<Rightarrow> string \<Rightarrow> bool" where
  "re_search r s = list_ex (\<lambda>i. rx_match r s i \<noteq> []) [0 ..< Suc (length s)]"

definition seqs :: "rx list \<Rightarrow> rx" where
  "seqs rs = foldr Seq rs Eps"

definition keyword_rx :: "string \<Rightarrow> rx" where
  "keyword_rx keyword = seqs [Boundary, Str keyword, Boundary]"

definition dangerous_keywords :: "string list" where
  "dangerous_keywords =
     [''DROP'', ''DELETE'', ''TRUNCATE'', ''ALTER'',
      ''RENAME'', ''MODIFY'', ''SHUTDOWN'', ''GRANT'',
      ''REVOKE'', ''ROLE'', ''BACKUP'', ''RESTORE'',
      ''CREATE TABLE'']"

definition valid_commands :: "string list" where
  "valid_commands =
     [''SELECT'', ''INSERT'', ''UPDATE'', ''CREATE'',
      ''SHOW'', ''DESCRIBE'', ''EXPLAIN'', ''USE'']"

definition injection_patterns :: "string list" where
  "injection_patterns =
     [''--'', '';'', ''/*'', ''*/'', ''@@'', ''@'',
      ''UNION'', ''SLEEP'', ''WAITFOR'', ''DELAY'',
      ''IF('', ''WHEN'']"

text \<open>The four patterns of \<^verbatim>\<open>common_attacks\<close>, in order:
  \<^verbatim>\<open>\bOR\s+1\s*=\s*1\b\<close>, then
  \<^verbatim>\<open>\bOR\s+['"].*['"]=['"].*['"]\b\<close>, then
  \<^verbatim>\<open>(?i)(?:INFORMATION_SCHEMA|SYS)\.\<close>, then
  \<^verbatim>\<open>\bEXEC\b|\bXP_\w+\b\<close>.\<close>

definition is_quote :: "char \<Rightarrow> bool" where
  "is_quote c = (c = CHR 0x27 \<or> c = CHR 0x22)"

definition any_char :: "char \<Rightarrow> bool" where
  "any_char c = (c \<noteq> CHR 0x0A)"

definition common_attacks :: "rx list" where
  "common_attacks =
     [seqs [Boundary, Str ''OR'', Many1 is_space, Str ''1'', Many is_space, Str ''='',
            Many is_space, Str ''1'', Boundary],
      seqs [Boundary, Str ''OR'', Many1 is_space, One is_quote, Many any_char, One is_quote,
            Str ''='', One is_quote, Many any_char, One is_quote, Boundary],
      seqs [Alt (StrI ''INFORMATION_SCHEMA'') (StrI ''SYS''), Str ''.''],
      Alt (seqs [Boundary, Str ''EXEC'', Boundary])
          (seqs [Boundary, Str ''XP_'', Many1 is_word_char, Boundary])]"

text \<open>\<^verbatim>\<open>query_upper = query.upper().replace("\n", " ").strip()\<close>\<close>

definition query_upper :: "string \<Rightarrow> string" where
  "query_upper query = strip (replace_newlines (upper query))"

definition validate_query :: "string \<Rightarrow> bool \<times> string option" where
  "validate_query query =
     (if query = [] then (False, Some ''Empty query'')
      else if length query > 5000 then (False, Some ''Query exceeds maximum length'')
      else if contains (butlast query) '';''
        then (False, Some ''Multiple statements are not allowed'')
      else if contains query ''--'' \<or> contains query ''/*''
        then (False, Some ''Comments are not allowed in queries'')
      else
        (case find (\<lambda>keyword. re_search (keyword_rx keyword) (query_upper query))
                dangerous_keywords of
           Some keyword \<Rightarrow> (False, Some (''Query contains forbidden keyword: '' @ keyword))
         | None \<Rightarrow>
             if \<not> list_ex (starts_with (query_upper query)) valid_commands
               then (False, Some ''Query must start with a valid SQL command'')
             else
               (case find (contains (query_upper query)) injection_patterns of
                  Some pattern \<Rightarrow>
                    (False, Some (''Query contains suspicious pattern: '' @ pattern))
                | None \<Rightarrow>
                    if list_ex (\<lambda>pattern. re_search pattern (query_upper query)) common_attacks
                      then (False, Some ''Query contains suspicious pattern'')
                    else (True, None))))"

section \<open>Requests, responses and the network\<close>

text \<open>JSON values. A request body is a JSON object (a dictionary) or absent.\<close>

datatype jval =
    JNull
  | JBool bool
  | JNum real
  | JStr string
  | JArr "jval list"
  | JObj "(string \<times> jval) list"

type_synonym payload = "string \<rightharpoonup> jval"

text \<open>A service answers with one of its own error dictionaries
  \<^verbatim>\<open>{"status": "error", "message": m}\<close> or passes on the JSON it received.\<close>

datatype response = ErrorResponse string | Downstream jval

text \<open>How one HTTP call to the next tier ends: a 2xx answer with its JSON body, or one of
  the \<^verbatim>\<open>requests\<close> exceptions (with \<^verbatim>\<open>str(e)\<close>); \<open>RequestFailed\<close> stands for
  every \<^verbatim>\<open>RequestException\<close> that is neither a timeout nor a connection error, such
  as the \<^verbatim>\<open>HTTPError\<close> of \<^verbatim>\<open>raise_for_status\<close>.\<close>

datatype post_outcome =
    Responded jval
  | TimedOut string
  | ConnectionFailed string
  | RequestFailed string

datatype health_outcome = HealthStatus nat | HealthRaised

text \<open>What the surroundings supply while one request is handled: the clock readings at the
  places that read the clock, the declared content length, the answer of the health
  probe, and the outcome of each forwarding attempt (by attempt number and payload sent)
  and of each strategy-change attempt.\<close>

record net_env =
  now_breaker :: timestamp
  now_rate :: timestamp
  now_health :: timestamp
  now_failure :: timestamp
  content_length :: "nat option"
  health :: health_outcome
  post :: "nat \<Rightarrow> payload \<Rightarrow> post_outcome"
  get_strategy :: "nat \<Rightarrow> string \<Rightarrow> post_outcome"

text \<open>The table \<^verbatim>\<open>STRATEGY_PORTS\<close> of gatekeeper.py and trusted\_host.py.\<close>

definition STRATEGY_PORTS :: "string \<rightharpoonup> nat" where
  "STRATEGY_PORTS =
     [''direct'' \<mapsto> 3306, ''random'' \<mapsto> 3307, ''customized'' \<mapsto> 3308]"

text \<open>\<^verbatim>\<open>query[:100]\<close> works on strings and lists and raises on every other JSON value.\<close>

fun sliceable :: "jval \<Rightarrow> bool" where
  "sliceable (JStr s) = True"
| "sliceable (JArr xs) = True"
| "sliceable v = False"

definition retry_attempts :: nat where
  "retry_attempts = 3"

section \<open>Trusted Host relay (trusted\_host.py)\<close>

record trusted_host =
  th_circuit_breaker :: circuit_breaker
  last_proxy_health_check :: timestamp
  th_current_strategy :: string
  th_request_counts :: request_counts

definition th_init :: trusted_host where
  "th_init = \<lparr>th_circuit_breaker = cb_init, last_proxy_health_check = 0,
              th_current_strategy = ''direct'', th_request_counts = Map.empty\<rparr>"

definition health_check_interval :: real where
  "health_check_interval = 60"

definition check_proxy_health :: "net_env \<Rightarrow> trusted_host \<Rightarrow> bool \<times> trusted_host" where
  "check_proxy_health env th =
     (let current_time = now_health env
      in if current_time - last_proxy_health_check th < health_check_interval then (True, th)
         else (case health env of
                 HealthStatus code \<Rightarrow>
                   (code = 200, th\<lparr>last_proxy_health_check := current_time\<rparr>)
               | HealthRaised \<Rightarrow> (False, th)))"

text \<open>\<^verbatim>\<open>STRATEGY_PORTS.get(strategy, STRATEGY_PORTS['direct'])\<close> on a JSON value: a list or
  an object is unhashable and raises \<^verbatim>\<open>TypeError\<close> (\<open>None\<close> here); every other value
  that is not a key of the table gets the default.\<close>

fun strategy_port :: "jval \<Rightarrow> nat option" where
  "strategy_port (JStr s) = Some (case STRATEGY_PORTS s of Some p \<Rightarrow> p | None \<Rightarrow> 3306)"
| "strategy_port (JArr xs) = None"
| "strategy_port (JObj kvs) = None"
| "strategy_port v = Some 3306"

text \<open>The retry loop of \<^verbatim>\<open>forward_request\<close> over the attempt numbers still to run. The
  result carries the list of payloads posted to the Proxy.\<close>

fun th_forward_attempts ::
  "net_env \<Rightarrow> payload \<Rightarrow> nat list \<Rightarrow> trusted_host
     \<Rightarrow> response \<times> payload list \<times> trusted_host" where
  "th_forward_attempts env data [] th =
     (ErrorResponse ''Failed to forward request after retries'', [], th)"
| "th_forward_attempts env data (attempt # rest) th =
     (case post env attempt data of
        Responded j \<Rightarrow>
          (Downstream j, [data],
           th\<lparr>th_circuit_breaker := record_success (th_circuit_breaker th)\<rparr>)
      | failure \<Rightarrow>
          if attempt = retry_attempts - 1 then
            ((case failure of
                TimedOut m \<Rightarrow> ErrorResponse ''Request timed out''
              | ConnectionFailed m \<Rightarrow> ErrorResponse ''Connection to Proxy failed''
              | _ \<Rightarrow> ErrorResponse ''Internal server error''),
             [data],
             th\<lparr>th_circuit_breaker :=
                  record_failure (now_failure env) (th_circuit_breaker th)\<rparr>)
          else
            (let (r, sent, th') = th_forward_attempts env data rest th
             in (r, data # sent, th')))"

definition forward_request ::
  "net_env \<Rightarrow> trusted_host \<Rightarrow> payload option
     \<Rightarrow> response \<times> payload list \<times> trusted_host" where
  "forward_request env th request_data =
     (let (ok, cb) = can_execute (now_breaker env) (th_circuit_breaker th);
          th1 = th\<lparr>th_circuit_breaker := cb\<rparr>
      in if \<not> ok then (ErrorResponse ''Service temporarily unavailable'', [], th1)
         else
           (case request_data of
              None \<Rightarrow>
                (ErrorResponse ''Invalid request format. Must include 'query' field.'', [], th1)
            | Some rd \<Rightarrow>
                (case rd ''query'' of
                   None \<Rightarrow>
                     (ErrorResponse ''Invalid request format. Must include 'query' field.'',
                      [], th1)
                 | Some query \<Rightarrow>
                     (let strategy = (case rd ''strategy'' of
                                        None \<Rightarrow> JStr (th_current_strategy th1)
                                      | Some v \<Rightarrow> v)
                      in case strategy_port strategy of
                           None \<Rightarrow> (ErrorResponse ''Internal server error'', [], th1)
                         | Some port \<Rightarrow>
                             (let rd1 = rd(''port'' \<mapsto> JNum (real port))
                              in if \<not> sliceable query
                                 then (ErrorResponse ''Internal server error'', [], th1)
                                 else
                                   (let (healthy, th2) = check_proxy_health env th1
                                    in if \<not> healthy
                                       then (ErrorResponse ''Proxy service unavailable'', [], th2)
                                       else th_forward_attempts env rd1
                                              [0 ..< retry_attempts] th2))))))"

text \<open>The route \<^verbatim>\<open>POST /query\<close> of the Trusted Host.\<close>

definition th_handle_query ::
  "net_env \<Rightarrow> trusted_host \<Rightarrow> payload option \<Rightarrow> client
     \<Rightarrow> response \<times> payload list \<times> trusted_host" where
  "th_handle_query env th request_data client_ip =
     (let (allowed, rc) = th_check_rate_limit (now_rate env) client_ip (th_request_counts th);
          th1 = th\<lparr>th_request_counts := rc\<rparr>
      in if \<not> allowed then (ErrorResponse ''Rate limit exceeded'', [], th1)
         else forward_request env th1 request_data)"

fun th_strategy_attempts ::
  "net_env \<Rightarrow> string \<Rightarrow> nat list \<Rightarrow> trusted_host \<Rightarrow> response \<times> trusted_host" where
  "th_strategy_attempts env strategy [] th =
     (ErrorResponse ''Failed to set strategy after retries'', th)"
| "th_strategy_attempts env strategy (attempt # rest) th =
     (case get_strategy env attempt strategy of
        Responded j \<Rightarrow>
          (Downstream j,
           th\<lparr>th_circuit_breaker := record_success (th_circuit_breaker th),
              th_current_strategy := strategy\<rparr>)
      | failure \<Rightarrow>
          if attempt = retry_attempts - 1 then
            (ErrorResponse (''Failed to set strategy: '' @
               (case failure of TimedOut m \<Rightarrow> m | ConnectionFailed m \<Rightarrow> m
                | RequestFailed m \<Rightarrow> m | Responded j \<Rightarrow> [])),
             th\<lparr>th_circuit_breaker :=
                  record_failure (now_failure env) (th_circuit_breaker th)\<rparr>)
          else th_strategy_attempts env strategy rest th)"

definition th_set_strategy ::
  "net_env \<Rightarrow> trusted_host \<Rightarrow> string \<Rightarrow> response \<times> trusted_host" where
  "th_set_strategy env th strategy =
     (if STRATEGY_PORTS strategy = None then
        (ErrorResponse
           ''Invalid strategy. Must be one of: direct, random, customized'', th)
      else
        (let (ok, cb) = can_execute (now_breaker env) (th_circuit_breaker th);
             th1 = th\<lparr>th_circuit_breaker := cb\<rparr>
         in if \<not> ok then (ErrorResponse ''Service temporarily unavailable'', th1)
            else th_strategy_attempts env strategy [0 ..< retry_attempts] th1))"

section \<open>Gatekeeper perimeter service (gatekeeper.py)\<close>

record gatekeeper =
  gk_circuit_breaker :: circuit_breaker
  gk_current_strategy :: string
  gk_request_counts :: request_counts

definition gk_init :: gatekeeper where
  "gk_init = \<lparr>gk_circuit_breaker = cb_init, gk_current_strategy = ''direct'',
              gk_request_counts = Map.empty\<rparr>"

fun gk_forward_attempts ::
  "net_env \<Rightarrow> payload \<Rightarrow> nat list \<Rightarrow> gatekeeper
     \<Rightarrow> response \<times> payload list \<times> gatekeeper" where
  "gk_forward_attempts env data [] gk =
     (ErrorResponse ''Failed to forward request to Trusted Host after retries'', [], gk)"
| "gk_forward_attempts env data (attempt # rest) gk =
     (case post env attempt data of
        Responded j \<Rightarrow>
          (Downstream j, [data],
           gk\<lparr>gk_circuit_breaker := record_success (gk_circuit_breaker gk)\<rparr>)
      | failure \<Rightarrow>
          if attempt = 2 then
            ((case failure of
                TimedOut m \<Rightarrow> ErrorResponse ''Request timed out''
              | ConnectionFailed m \<Rightarrow> ErrorResponse ''Connection to internal service failed''
              | _ \<Rightarrow> ErrorResponse ''Internal server error''),
             [data],
             gk\<lparr>gk_circuit_breaker :=
                  record_failure (now_failure env) (gk_circuit_breaker gk)\<rparr>)
          else
            (let (r, sent, gk') = gk_forward_attempts env data rest gk
             in (r, data # sent, gk')))"

text \<open>\<^verbatim>\<open>validate_query\<close> applied to the JSON value of the \<^verbatim>\<open>query\<close> field, once
  \<^verbatim>\<open>query[:100]\<close> has passed: an empty list is falsy and reported as an empty query,
  a non-empty list has no \<^verbatim>\<open>upper\<close> and raises (\<open>None\<close> here).\<close>

fun validate_json_query :: "jval \<Rightarrow> (bool \<times> string option) option" where
  "validate_json_query (JStr s) = Some (validate_query s)"
| "validate_json_query (JArr xs) =
     (if xs = [] then Some (False, Some ''Empty query'') else None)"
| "validate_json_query v = None"

definition process_request ::
  "net_env \<Rightarrow> gatekeeper \<Rightarrow> payload option \<Rightarrow> client
     \<Rightarrow> response \<times> payload list \<times> gatekeeper" where
  "process_request env gk request_data client_ip =
     (let (ok, cb) = can_execute (now_breaker env) (gk_circuit_breaker gk);
          gk1 = gk\<lparr>gk_circuit_breaker := cb\<rparr>
      in if \<not> ok then (ErrorResponse ''Service temporarily unavailable'', [], gk1)
         else
           (let (allowed, rc) =
                  gk_check_rate_limit (now_rate env) client_ip (gk_request_counts gk1);
                gk2 = gk1\<lparr>gk_request_counts := rc\<rparr>
            in if \<not> allowed then (ErrorResponse ''Rate limit exceeded'', [], gk2)
               else
                 (case request_data of
                    None \<Rightarrow>
                      (ErrorResponse ''Invalid request format. Must include 'query' field.'',
                       [], gk2)
                  | Some rd \<Rightarrow>
                      (case rd ''query'' of
                         None \<Rightarrow>
                           (ErrorResponse
                              ''Invalid request format. Must include 'query' field.'',
                            [], gk2)
                       | Some query \<Rightarrow>
                           if (case content_length env of
                                 None \<Rightarrow> False
                               | Some n \<Rightarrow> n \<noteq> 0 \<and> n > 1024 * 1024)
                           then (ErrorResponse ''Request too large'', [], gk2)
                           else if \<not> sliceable query
                           then (ErrorResponse ''Internal server error'', [], gk2)
                           else
                             (case validate_json_query query of
                                None \<Rightarrow> (ErrorResponse ''Internal server error'', [], gk2)
                              | Some (is_valid, error_message) \<Rightarrow>
                                  if \<not> is_valid then
                                    (ErrorResponse
                                       (case error_message of None \<Rightarrow> [] | Some m \<Rightarrow> m),
                                     [], gk2)
                                  else
                                    (case STRATEGY_PORTS (gk_current_strategy gk2) of
                                       None \<Rightarrow>
                                         (ErrorResponse ''Internal server error'', [], gk2)
                                     | Some port \<Rightarrow>
                                         gk_forward_attempts env
                                           (rd(''strategy'' \<mapsto> JStr (gk_current_strategy gk2),
                                               ''port'' \<mapsto> JNum (real port)))
                                           [0 ..< 3] gk2))))))"

text \<open>An environment in which every call to the next tier succeeds at once.\<close>

definition quiet_env :: net_env where
  "quiet_env =
     \<lparr>now_breaker = 10, now_rate = 10, now_health = 10, now_failure = 10,
      content_length = None, health = HealthStatus 200,
      post = (\<lambda>attempt data. Responded (JObj [(''status'', JStr ''success'')])),
      get_strategy = (\<lambda>attempt strategy. Responded (JObj [(''status'', JStr ''success'')]))\<rparr>"

text \<open>A Gatekeeper whose breaker has counted five failures in a row, and a Trusted Host
  whose cached strategy has been changed to \<open>random\<close> by a successful
  \<^verbatim>\<open>set_strategy\<close>.\<close>

definition tripped_gatekeeper :: gatekeeper where
  "tripped_gatekeeper =
     gk_init\<lparr>gk_circuit_breaker :=
       cb_run cb_init [RecordFailure 1, RecordFailure 2, RecordFailure 3,
                       RecordFailure 4, RecordFailure 5]\<rparr>"

definition random_trusted_host :: trusted_host where
  "random_trusted_host = snd (th_set_strategy quiet_env th_init ''random'')"

section \<open>Circuit breaker: properties\<close>

lemma cb_trace_length: "length (cb_trace cb ops) = Suc (length ops)"
  by (induction ops arbitrary: cb) simp_all

lemma cb_trace_0: "cb_trace cb ops ! 0 = cb"
  by (cases ops) simp_all

lemma cb_trace_Suc:
  "cb_trace cb (x # xs) ! Suc k = cb_trace (cb_step x cb) xs ! k"
  by simp

lemma cb_trace_step:
  "k < length ops \<Longrightarrow> cb_trace cb ops ! Suc k = cb_step (ops ! k) (cb_trace cb ops ! k)"
proof (induction ops arbitrary: cb k)
  case Nil
  then show ?case by simp
next
  case (Cons x xs)
  show ?case
  proof (cases k)
    case 0
    then show ?thesis by (simp add: cb_trace_0)
  next
    case (Suc m)
    with Cons.prems have "m < length xs" by simp
    from Cons.IH [OF this, of "cb_step x cb"] Suc show ?thesis by simp
  qed
qed

lemma cb_step_inv: "cb_inv cb \<Longrightarrow> cb_inv (cb_step x cb)"
  by (cases x)
     (auto simp: cb_inv_def record_failure_def record_success_def can_execute_def Let_def)

lemma cb_run_inv: "cb_inv cb \<Longrightarrow> cb_inv (cb_run cb ops)"
  by (induction ops arbitrary: cb) (simp_all add: cb_step_inv)

text \<open>
  Claim C10. The breaker keeps the invariant "a failure count of 0 implies the closed
  state" (so an open or half-open breaker has counted at least one failure): it holds
  initially, each of the three calls preserves it, and so it holds after every sequence
  of calls from the initial breaker.
\<close>

theorem circuit_breaker_invariant:
  "cb_inv cb_init
   \<and> (cb_inv cb \<longrightarrow> cb_inv (record_failure now cb)
                  \<and> cb_inv (record_success cb)
                  \<and> cb_inv (snd (can_execute now cb)))
   \<and> cb_inv (cb_run cb_init ops)
   \<and> (state (cb_run cb_init ops) \<noteq> Closed \<longrightarrow> 1 \<le> failures (cb_run cb_init ops))"
proof -
  have i: "cb_inv cb_init" by (simp add: cb_inv_def cb_init_def)
  have s: "cb_inv cb \<longrightarrow> cb_inv (record_failure now cb)
                  \<and> cb_inv (record_success cb)
                  \<and> cb_inv (snd (can_execute now cb))"
    using cb_step_inv [of cb "RecordFailure now"] cb_step_inv [of cb RecordSuccess]
      cb_step_inv [of cb "CanExecute now"] by simp
  have r: "cb_inv (cb_run cb_init ops)" using i by (rule cb_run_inv)
  then have "state (cb_run cb_init ops) \<noteq> Closed \<longrightarrow> 1 \<le> failures (cb_run cb_init ops)"
    by (auto simp: cb_inv_def)
  with i s r show ?thesis by blast
qed

theorem circuit_breaker_invariant_witness:
  "cb_inv \<lparr>failures = 5, last_failure_time = 10, state = Open\<rparr>
   \<and> cb_inv (record_failure 20 \<lparr>failures = 5, last_failure_time = 10, state = Open\<rparr>)
   \<and> cb_inv (record_success \<lparr>failures = 5, last_failure_time = 10, state = Open\<rparr>)
   \<and> cb_inv (snd (can_execute 20 \<lparr>failures = 5, last_failure_time = 10, state = Open\<rparr>))
   \<and> state (cb_run cb_init [RecordFailure 1, RecordFailure 2, RecordFailure 3,
        RecordFailure 4, RecordFailure 5]) \<noteq> Closed
   \<and> 1 \<le> failures (cb_run cb_init [RecordFailure 1, RecordFailure 2, RecordFailure 3,
        RecordFailure 4, RecordFailure 5])"
proof -
  have a: "cb_inv \<lparr>failures = 5, last_failure_time = 10, state = Open\<rparr>"
    by (simp add: cb_inv_def)
  have b: "state (cb_run cb_init [RecordFailure 1, RecordFailure 2, RecordFailure 3,
        RecordFailure 4, RecordFailure 5]) \<noteq> Closed"
    by (simp add: cb_init_def record_failure_def threshold_def Let_def)
  show ?thesis
    using a b
      circuit_breaker_invariant [of "\<lparr>failures = 5, last_failure_time = 10, state = Open\<rparr>" 20
        "[RecordFailure 1, RecordFailure 2, RecordFailure 3, RecordFailure 4, RecordFailure 5]"]
    by blast
qed

lemma cb_step_stays_unclosed:
  "x \<noteq> RecordSuccess \<Longrightarrow> state cb \<noteq> Closed \<Longrightarrow> state (cb_step x cb) \<noteq> Closed"
  by (cases x) (auto simp: record_failure_def can_execute_def Let_def)

lemma cb_trace_stays_unclosed:
  assumes "state (cb_trace cb ops ! i) \<noteq> Closed"
    and "\<forall>k. i \<le> k \<and> k < j \<longrightarrow> ops ! k \<noteq> RecordSuccess"
    and "i \<le> j" and "j \<le> length ops"
  shows "state (cb_trace cb ops ! j) \<noteq> Closed"
  using assms(2-4)
proof (induction j)
  case 0
  with assms(1) show ?case by simp
next
  case (Suc j)
  show ?case
  proof (cases "i = Suc j")
    case True
    with assms(1) show ?thesis by simp
  next
    case False
    with Suc.prems have ij: "i \<le> j" and jl: "j < length ops" by simp_all
    from Suc.prems have "\<forall>k. i \<le> k \<and> k < j \<longrightarrow> ops ! k \<noteq> RecordSuccess" by simp
    with Suc.IH ij jl have "state (cb_trace cb ops ! j) \<noteq> Closed" by simp
    moreover from Suc.prems ij have "ops ! j \<noteq> RecordSuccess" by simp
    ultimately show ?thesis
      using cb_trace_step [OF jl, of cb] cb_step_stays_unclosed by simp
  qed
qed

text \<open>
  Claim C6. From a closed breaker with no counted failure, five \<^verbatim>\<open>record_failure\<close>
  calls open it: \<^verbatim>\<open>can_execute\<close> answers false (and changes nothing) as long as no
  more than 60 seconds have passed since the last failure; the first call made more than
  60 seconds after it answers true and leaves the breaker half-open; a
  \<^verbatim>\<open>record_success\<close> after that closes it with a failure count of 0.
\<close>

theorem breaker_trips_and_recovers:
  assumes "state cb = Closed" and "failures cb = 0"
    and "early - t5 \<le> 60" and "late - t5 > 60"
  shows "(let cb5 = cb_run cb [RecordFailure t1, RecordFailure t2, RecordFailure t3,
                                RecordFailure t4, RecordFailure t5]
          in can_execute early cb5 = (False, cb5)
           \<and> fst (can_execute late cb5) = True
           \<and> state (snd (can_execute late cb5)) = HalfOpen
           \<and> state (record_success (snd (can_execute late cb5))) = Closed
           \<and> failures (record_success (snd (can_execute late cb5))) = 0)"
  using assms
  by (simp add: record_failure_def record_success_def can_execute_def threshold_def
      timeout_def Let_def)

theorem breaker_trips_and_recovers_witness:
  "can_execute 65 (cb_run cb_init [RecordFailure 1, RecordFailure 2, RecordFailure 3,
       RecordFailure 4, RecordFailure 5])
     = (False, cb_run cb_init [RecordFailure 1, RecordFailure 2, RecordFailure 3,
       RecordFailure 4, RecordFailure 5])
   \<and> fst (can_execute 66 (cb_run cb_init [RecordFailure 1, RecordFailure 2,
       RecordFailure 3, RecordFailure 4, RecordFailure 5]))
   \<and> state (snd (can_execute 66 (cb_run cb_init [RecordFailure 1, RecordFailure 2,
       RecordFailure 3, RecordFailure 4, RecordFailure 5]))) = HalfOpen"
proof -
  have a: "state cb_init = Closed" and b: "failures cb_init = 0"
    by (simp_all add: cb_init_def)
  have c: "(65::real) - 5 \<le> 60" and d: "(66::real) - 5 > 60" by simp_all
  from breaker_trips_and_recovers [OF a b c d, of 1 2 3 4]
  show ?thesis by (simp add: Let_def)
qed

text \<open>
  Claim C3, as stated: whenever the breaker is open at step \<open>i\<close> and closed at a later
  step \<open>j\<close>, some call strictly in between is a \<^verbatim>\<open>record_success\<close> on a half-open
  breaker. This fails: \<^verbatim>\<open>record_success\<close> closes the breaker from any state, so a
  success recorded right after the fifth failure takes it from open to closed directly.
\<close>

theorem open_to_closed_counterexample:
  "state (cb_trace cb_init [RecordFailure 1, RecordFailure 2, RecordFailure 3,
        RecordFailure 4, RecordFailure 5, RecordSuccess] ! 5) = Open
   \<and> state (cb_trace cb_init [RecordFailure 1, RecordFailure 2, RecordFailure 3,
        RecordFailure 4, RecordFailure 5, RecordSuccess] ! 6) = Closed
   \<and> \<not> half_open_success_between cb_init [RecordFailure 1, RecordFailure 2,
        RecordFailure 3, RecordFailure 4, RecordFailure 5, RecordSuccess] 5 6"
  by (simp add: half_open_success_between_def cb_init_def record_failure_def
      record_success_def threshold_def Let_def)

text \<open>
  Claim C3, amended: in every sequence of calls from the initial breaker in which
  \<^verbatim>\<open>record_success\<close> is never called while the breaker is open, whenever the breaker
  is open at step \<open>i\<close> and closed at a later step \<open>j\<close>, some call strictly in between is
  a \<^verbatim>\<open>record_success\<close> made on a half-open breaker.
\<close>

theorem open_to_closed_via_half_open:
  assumes disc: "success_never_while_open cb_init ops"
    and ij: "i < j" and jl: "j \<le> length ops"
    and op: "state (cb_trace cb_init ops ! i) = Open"
    and cl: "state (cb_trace cb_init ops ! j) = Closed"
  shows "half_open_success_between cb_init ops i j"
proof -
  let ?tr = "cb_trace cb_init ops"
  let ?P = "\<lambda>k. i \<le> k \<and> k < j \<and> ops ! k = RecordSuccess"
  have hyp: "\<And>k. k < length ops \<Longrightarrow> ops ! k = RecordSuccess \<Longrightarrow> state (?tr ! k) \<noteq> Open"
    using disc by (simp add: success_never_while_open_def list_all_iff)
  have ex: "\<exists>k. ?P k"
  proof (rule ccontr)
    assume "\<not> (\<exists>k. ?P k)"
    then have "\<forall>k. i \<le> k \<and> k < j \<longrightarrow> ops ! k \<noteq> RecordSuccess" by blast
    with cb_trace_stays_unclosed [of cb_init ops i j] op ij jl
    have "state (?tr ! j) \<noteq> Closed" by simp
    with cl show False by simp
  qed
  define k where "k = (LEAST k. ?P k)"
  have Pk: "?P k" unfolding k_def using ex by (rule LeastI_ex)
  have least: "\<And>m. m < k \<Longrightarrow> \<not> ?P m" unfolding k_def by (rule not_less_Least)
  from Pk jl have kl: "k < length ops" by simp
  have "\<forall>m. i \<le> m \<and> m < k \<longrightarrow> ops ! m \<noteq> RecordSuccess"
    using least Pk by auto
  with cb_trace_stays_unclosed [of cb_init ops i k] op Pk kl
  have "state (?tr ! k) \<noteq> Closed" by simp
  moreover from hyp [OF kl] Pk have nopen: "state (?tr ! k) \<noteq> Open" by simp
  ultimately have ho: "state (?tr ! k) = HalfOpen" by (cases "state (?tr ! k)") simp_all
  from nopen op have "k \<noteq> i" by auto
  with Pk have "Suc i \<le> k" "k < j" by simp_all
  with ho Pk show ?thesis
    by (auto simp: half_open_success_between_def list_ex_iff)
qed

theorem open_to_closed_via_half_open_witness:
  "success_never_while_open cb_init [RecordFailure 1, RecordFailure 2, RecordFailure 3,
      RecordFailure 4, RecordFailure 5, CanExecute 70, RecordSuccess]
   \<and> state (cb_trace cb_init [RecordFailure 1, RecordFailure 2, RecordFailure 3,
      RecordFailure 4, RecordFailure 5, CanExecute 70, RecordSuccess] ! 5) = Open
   \<and> state (cb_trace cb_init [RecordFailure 1, RecordFailure 2, RecordFailure 3,
      RecordFailure 4, RecordFailure 5, CanExecute 70, RecordSuccess] ! 7) = Closed
   \<and> half_open_success_between cb_init [RecordFailure 1, RecordFailure 2, RecordFailure 3,
      RecordFailure 4, RecordFailure 5, CanExecute 70, RecordSuccess] 5 7"
proof -
  let ?ops = "[RecordFailure 1, RecordFailure 2, RecordFailure 3,
      RecordFailure 4, RecordFailure 5, CanExecute 70, RecordSuccess]"
  have tr: "cb_trace cb_init ?ops =
      [\<lparr>failures = 0, last_failure_time = 0, state = Closed\<rparr>,
       \<lparr>failures = 1, last_failure_time = 1, state = Closed\<rparr>,
       \<lparr>failures = 2, last_failure_time = 2, state = Closed\<rparr>,
       \<lparr>failures = 3, last_failure_time = 3, state = Closed\<rparr>,
       \<lparr>failures = 4, last_failure_time = 4, state = Closed\<rparr>,
       \<lparr>failures = 5, last_failure_time = 5, state = Open\<rparr>,
       \<lparr>failures = 5, last_failure_time = 5, state = HalfOpen\<rparr>,
       \<lparr>failures = 0, last_failure_time = 5, state = Closed\<rparr>]"
    by (simp add: cb_init_def record_failure_def record_success_def can_execute_def
        threshold_def timeout_def Let_def)
  have up7: "[0 ..< 7] = [0, 1, 2, 3, 4, 5, 6::nat]" by (simp add: upt_rec)
  have up67: "[Suc 5 ..< 7] = [6::nat]" by (simp add: upt_rec)
  have d: "success_never_while_open cb_init ?ops"
    unfolding success_never_while_open_def tr by (simp add: up7)
  have o: "state (cb_trace cb_init ?ops ! 5) = Open" unfolding tr by simp
  have c: "state (cb_trace cb_init ?ops ! 7) = Closed" unfolding tr by simp
  have ij: "(5::nat) < 7" and jl: "7 \<le> length ?ops" by simp_all
  from open_to_closed_via_half_open [OF d ij jl o c] d o c show ?thesis by blast
qed

section \<open>Rate limiter: properties\<close>

lemma check_window:
  "window_of (snd (check_rate_limit limit now c rc)) c
     = filter (\<lambda>t. now - t < RATE_WINDOW) (window_of rc c) @ [now]"
  by (simp add: check_rate_limit_def window_of_def Let_def)

lemma check_answer:
  "fst (check_rate_limit limit now c rc)
     = (length (filter (\<lambda>t. now - t < RATE_WINDOW) (window_of rc c) @ [now]) \<le> limit)"
  by (simp add: check_rate_limit_def window_of_def Let_def)

lemma check_other:
  "d \<noteq> c \<Longrightarrow> snd (check_rate_limit limit now c rc) d = rc d"
  by (simp add: check_rate_limit_def Let_def)

lemma checks_Cons:
  "checks limit c (t # ts) rc =
    (fst (check_rate_limit limit t c rc) # fst (checks limit c ts (snd (check_rate_limit limit t c rc))),
     snd (checks limit c ts (snd (check_rate_limit limit t c rc))))"
  by (simp add: Let_def split: prod.splits)

lemma checks_length: "length (fst (checks limit c ts rc)) = length ts"
  by (induction ts arbitrary: rc) (simp_all add: checks_Cons del: checks.simps(2))

lemma checks_all_retained:
  assumes "\<forall>t \<in> set (window_of rc c) \<union> set ts. hi - t < RATE_WINDOW"
    and "\<forall>u \<in> set ts. u \<le> hi"
  shows "window_of (snd (checks limit c ts rc)) c = window_of rc c @ ts
       \<and> (\<forall>i < length ts. fst (checks limit c ts rc) ! i
             = (length (window_of rc c) + Suc i \<le> limit))"
  using assms
proof (induction ts arbitrary: rc)
  case Nil
  then show ?case by simp
next
  case (Cons t ts)
  let ?rc1 = "snd (check_rate_limit limit t c rc)"
  have keep: "filter (\<lambda>x. t - x < RATE_WINDOW) (window_of rc c) = window_of rc c"
  proof (rule filter_True, rule ballI)
    fix x assume "x \<in> set (window_of rc c)"
    with Cons.prems have "hi - x < RATE_WINDOW" "t \<le> hi" by simp_all
    then show "t - x < RATE_WINDOW" by simp
  qed
  have w1: "window_of ?rc1 c = window_of rc c @ [t]"
    by (simp add: check_window keep)
  have a1: "fst (check_rate_limit limit t c rc) = (length (window_of rc c) + Suc 0 \<le> limit)"
    by (simp add: check_answer keep)
  have "\<forall>x \<in> set (window_of ?rc1 c) \<union> set ts. hi - x < RATE_WINDOW"
    using Cons.prems w1 by auto
  moreover have "\<forall>u \<in> set ts. u \<le> hi" using Cons.prems by simp
  ultimately have IH: "window_of (snd (checks limit c ts ?rc1)) c = window_of ?rc1 c @ ts
       \<and> (\<forall>i < length ts. fst (checks limit c ts ?rc1) ! i
             = (length (window_of ?rc1 c) + Suc i \<le> limit))"
    by (rule Cons.IH)
  have "window_of (snd (checks limit c (t # ts) rc)) c = window_of rc c @ t # ts"
    using IH w1 by (simp add: checks_Cons del: checks.simps(2))
  moreover have "\<forall>i < length (t # ts). fst (checks limit c (t # ts) rc) ! i
             = (length (window_of rc c) + Suc i \<le> limit)"
  proof (intro allI impI)
    fix i assume "i < length (t # ts)"
    then show "fst (checks limit c (t # ts) rc) ! i
             = (length (window_of rc c) + Suc i \<le> limit)"
      using IH w1 a1 by (cases i) (simp_all add: checks_Cons del: checks.simps(2))
  qed
  ultimately show ?case by blast
qed


lemma sorted_le_last: "sorted (xs::real list) \<Longrightarrow> x \<in> set xs \<Longrightarrow> x \<le> last xs"
proof -
  assume s: "sorted xs" and m: "x \<in> set xs"
  then obtain i where i: "i < length xs" "xs ! i = x" by (auto simp: in_set_conv_nth)
  then have ne: "xs \<noteq> []" by auto
  from i have "i \<le> length xs - 1" by simp
  with s i have "xs ! i \<le> xs ! (length xs - 1)" by (intro sorted_nth_mono) simp_all
  with i ne show ?thesis by (simp add: last_conv_nth)
qed

text \<open>
  Claim C7. A rate-limiter check keeps exactly the client's timestamps younger than 60
  seconds, appends the current reading, and answers whether the resulting count is at
  most the limit; no entry retained after a check is 60 seconds old or older. With limit
  \<open>N\<close>, for a client whose earlier entries (if any) have all aged out, \<open>N + 1\<close> checks
  at non-decreasing times spanning less than 60 seconds are answered true \<open>N\<close> times and
  then false, and a check made 60 seconds or more after the last of them is answered
  true again.
\<close>

theorem rate_limiter_window:
  assumes srt: "sorted ts" and len: "length ts = Suc N"
    and win: "last ts - hd ts < 60"
    and stale: "\<forall>t \<in> set (window_of rc c). 60 \<le> hd ts - t"
    and N1: "1 \<le> N" and later: "60 \<le> later - last ts"
  shows "window_of (snd (check_rate_limit limit now c rc')) c
           = filter (\<lambda>t. now - t < 60) (window_of rc' c) @ [now]
       \<and> fst (check_rate_limit limit now c rc')
           = (length (filter (\<lambda>t. now - t < 60) (window_of rc' c) @ [now]) \<le> limit)
       \<and> (\<forall>t \<in> set (window_of (snd (check_rate_limit limit now c rc')) c). now - t < 60)
       \<and> fst (checks N c ts rc) = replicate N True @ [False]
       \<and> fst (check_rate_limit N later c (snd (checks N c ts rc))) = True"
proof -
  have p1: "window_of (snd (check_rate_limit limit now c rc')) c
           = filter (\<lambda>t. now - t < 60) (window_of rc' c) @ [now]"
    using check_window [of limit now c rc'] by (simp add: RATE_WINDOW_def)
  have p2: "fst (check_rate_limit limit now c rc')
           = (length (filter (\<lambda>t. now - t < 60) (window_of rc' c) @ [now]) \<le> limit)"
    using check_answer [of limit now c rc'] by (simp add: RATE_WINDOW_def)
  have p3: "\<forall>t \<in> set (window_of (snd (check_rate_limit limit now c rc')) c). now - t < 60"
    unfolding p1 by simp
  from len obtain t1 ts' where ts: "ts = t1 # ts'" and len': "length ts' = N"
    by (cases ts) simp_all
  let ?hi = "last ts"
  let ?rc1 = "snd (check_rate_limit N t1 c rc)"
  have lo: "\<forall>u \<in> set ts'. t1 \<le> u" using srt ts by simp
  have hi: "\<forall>u \<in> set ts. u \<le> ?hi" using srt sorted_le_last by blast
  have prune: "filter (\<lambda>x. t1 - x < RATE_WINDOW) (window_of rc c) = []"
    using stale ts by (auto simp: RATE_WINDOW_def filter_empty_conv)
  have w1: "window_of ?rc1 c = [t1]" by (simp add: check_window prune)
  have a1: "fst (check_rate_limit N t1 c rc) = (Suc 0 \<le> N)"
    by (simp add: check_answer prune)
  have "\<forall>x \<in> set (window_of ?rc1 c) \<union> set ts'. ?hi - x < RATE_WINDOW"
    using w1 win lo ts by (auto simp: RATE_WINDOW_def)
  moreover have "\<forall>u \<in> set ts'. u \<le> ?hi" using hi ts by simp
  ultimately have rest: "window_of (snd (checks N c ts' ?rc1)) c = window_of ?rc1 c @ ts'
       \<and> (\<forall>i < length ts'. fst (checks N c ts' ?rc1) ! i
             = (length (window_of ?rc1 c) + Suc i \<le> N))"
    by (rule checks_all_retained)
  have nth: "\<And>k. k < Suc N \<Longrightarrow> fst (checks N c ts rc) ! k = (Suc k \<le> N)"
  proof -
    fix k assume "k < Suc N"
    then show "fst (checks N c ts rc) ! k = (Suc k \<le> N)"
      using rest w1 a1 len' unfolding ts
      by (cases k) (simp_all add: checks_Cons del: checks.simps(2))
  qed
  have p4: "fst (checks N c ts rc) = replicate N True @ [False]"
  proof (rule nth_equalityI)
    show "length (fst (checks N c ts rc)) = length (replicate N True @ [False])"
      by (simp add: checks_length len)
  next
    fix k assume "k < length (fst (checks N c ts rc))"
    then have k: "k < Suc N" by (simp add: checks_length len)
    then show "fst (checks N c ts rc) ! k = (replicate N True @ [False]) ! k"
      using nth [OF k] by (cases "k < N") (simp_all add: nth_append)
  qed
  have wN: "window_of (snd (checks N c ts rc)) c = ts"
    using rest w1 unfolding ts by (simp add: checks_Cons del: checks.simps(2))
  have "filter (\<lambda>x. later - x < RATE_WINDOW) ts = []"
    using hi later by (fastforce simp: RATE_WINDOW_def filter_empty_conv)
  then have p5: "fst (check_rate_limit N later c (snd (checks N c ts rc))) = True"
    using N1 by (simp add: check_answer wN)
  from p1 p2 p3 p4 p5 show ?thesis by blast
qed

theorem rate_limiter_window_witness:
  "sorted [0, 10, 20 :: real]
   \<and> fst (checks 2 ''c'' [0, 10, 20] Map.empty) = [True, True, False]
   \<and> fst (check_rate_limit 2 100 ''c'' (snd (checks 2 ''c'' [0, 10, 20] Map.empty)))
   \<and> window_of (snd (check_rate_limit 2 70 ''c'' [''c'' \<mapsto> [5, 30]])) ''c'' = [30, 70]"
proof -
  have a: "sorted [0, 10, 20 :: real]" by simp
  have b: "length [0, 10, 20 :: real] = Suc 2" by simp
  have c: "last [0, 10, 20 :: real] - hd [0, 10, 20] < 60" by simp
  have d: "\<forall>t \<in> set (window_of Map.empty ''c''). 60 \<le> hd [0, 10, 20 :: real] - t"
    by (simp add: window_of_def)
  have e: "1 \<le> (2::nat)" by simp
  have f: "60 \<le> (100::real) - last [0, 10, 20]" by simp
  from rate_limiter_window [OF a b c d e f, of 2 70 "[''c'' \<mapsto> [5, 30]]"] a
  show ?thesis by (simp add: window_of_def numeral_2_eq_2)
qed

section \<open>Proxy: properties\<close>

lemma get_connection_conns:
  "conns (snd (get_connection dt h s st)) = conns st @ [(h, connection_port s)]"
  by (simp add: get_connection_def Let_def split: prod.splits)

lemma execute_query_conns:
  "conns (snd (execute_query dt h q s st)) = conns st @ [(h, connection_port s)]"
proof -
  obtain ok st1 where g: "get_connection dt h s st = (ok, st1)" by (cases "get_connection dt h s st")
  with get_connection_conns [of dt h s st]
  have c: "conns st1 = conns st @ [(h, connection_port s)]" by simp
  show ?thesis using g c
    by (simp add: execute_query_def Let_def split: prod.splits run_outcome.splits)
qed

lemma replicate_to_workers_conns:
  "conns (replicate_to_workers dt ws q st) = conns st @ map (\<lambda>w. (w, 3306)) ws"
  by (induction ws arbitrary: st) (simp_all add: execute_query_conns connection_port_def)














lemma probe_workers_conns:
  "conns (snd (probe_workers dt ws rts st)) = conns st @ map (\<lambda>w. (w, 3308)) ws"
proof (induction ws arbitrary: rts st)
  case Nil
  show ?case by simp
next
  case (Cons w ws)
  have p: "connection_port (Some ''customized'') = 3308"
    by (simp add: connection_port_def strategy_ports_def)
  have g: "\<And>s. conns (snd (get_connection dt w (Some ''customized'') s))
      = conns s @ [(w, 3308)]"
    by (simp add: get_connection_conns p)
  show ?case
  proof (cases "clock dt (world st)")
    case (Pair t1 w1)
    let ?s = "st\<lparr>world := w1\<rparr>"
    show ?thesis
    proof (cases "get_connection dt w (Some ''customized'') ?s")
      case gc: (Pair ok st1)
      from g [of ?s] gc have c1: "conns st1 = conns st @ [(w, 3308)]" by simp
      show ?thesis
        using Pair gc c1 by (simp add: Let_def Cons.IH split: prod.splits)
    qed
  qed
qed


lemma uneven_select:
  "select_read_host uneven_workers
       \<lparr>manager_host = ''m'', worker_hosts = [''w1'', ''w2'', ''w3''],
        current_strategy = ''customized''\<rparr> \<lparr>world = 0, conns = []\<rparr>
     = (Inr ''w3'', \<lparr>world = 9,
          conns = [(''w1'', 3308), (''w2'', 3308), (''w3'', 3308)]\<rparr>)"
  by (simp add: select_read_host_def get_fastest_worker_def get_connection_def
      uneven_workers_def connection_port_def strategy_ports_def Let_def)




lemma random_choice_conns: "conns (snd (random_choice dt ws st)) = conns st"
  by (simp add: random_choice_def Let_def split: prod.splits)

lemma get_fastest_worker_conns:
  "conns (snd (get_fastest_worker dt ws st)) = conns st @ map (\<lambda>w. (w, 3308)) ws"
proof (cases "probe_workers dt ws [] st")
  case (Pair rts st1)
  with probe_workers_conns [of dt ws "[]" st]
  have "conns st1 = conns st @ map (\<lambda>w. (w, 3308)) ws" by simp
  with Pair show ?thesis by (simp add: get_fastest_worker_def)
qed

lemma select_read_host_conns:
  "conns (snd (select_read_host dt pm st))
     = conns st @ (if current_strategy pm = ''customized''
                   then map (\<lambda>w. (w, 3308)) (worker_hosts pm) else [])"
  by (simp add: select_read_host_def random_choice_conns get_fastest_worker_conns)

lemma strategy_port_values:
  "connection_port (Some ''direct'') = 3306"
  "connection_port (Some ''random'') = 3307"
  "connection_port (Some ''customized'') = 3308"
  by (simp_all add: connection_port_def strategy_ports_def)

text \<open>
  Claim C5, as stated: every connection to the data tier uses the port of the active
  strategy. This fails for writes: under strategy \<open>random\<close> (port 3307) the manager
  execution and the replication both connect on port 3306.
\<close>

theorem write_port_counterexample:
  "strategy_ports ''random'' = Some 3307
   \<and> conns (snd (route_request only_manager_up
        \<lparr>manager_host = ''m'', worker_hosts = [''w1''], current_strategy = ''random''\<rparr>
        ''INSERT INTO t VALUES (1)'' True \<lparr>world = (), conns = []\<rparr>))
      = [(''m'', 3306), (''w1'', 3306)]"
  by (simp add: strategy_ports_def route_request_def execute_query_def get_connection_def
      only_manager_up_def connection_port_def Let_def)

text \<open>
  Claim C5, amended: a read on the selected worker connects on the port of the active
  strategy (3306 for direct, 3307 for random, 3308 for customized), and the probes of
  strategy customized connect on 3308; a write on the manager, its replication to the
  workers, and the manager fallback after a failed read always connect on 3306, whatever
  the strategy.
\<close>

theorem connection_ports_by_path:
  "(\<exists>cs. conns (snd (route_request dt pm query True st)) = conns st @ cs
          \<and> (\<forall>c \<in> set cs. snd c = 3306))
   \<and> (\<forall>target st1. select_read_host dt pm st = (Inr target, st1) \<longrightarrow>
         conns st1 = conns st @ (if current_strategy pm = ''customized''
                                 then map (\<lambda>w. (w, 3308)) (worker_hosts pm) else [])
       \<and> (\<exists>fb. conns (snd (route_request dt pm query False st))
                  = conns st1 @ (target, connection_port (Some (current_strategy pm))) # fb
               \<and> (fb = [] \<or> fb = [(manager_host pm, 3306)])))
   \<and> connection_port (Some ''direct'') = 3306
   \<and> connection_port (Some ''random'') = 3307
   \<and> connection_port (Some ''customized'') = 3308"
proof -
  have wr: "\<exists>cs. conns (snd (route_request dt pm query True st)) = conns st @ cs
          \<and> (\<forall>c \<in> set cs. snd c = 3306)"
  proof (cases "execute_query dt (manager_host pm) query None st")
    case (Pair r st1)
    from execute_query_conns [of dt "manager_host pm" query None st] Pair
    have c1: "conns st1 = conns st @ [(manager_host pm, 3306)]"
      by (simp add: connection_port_def)
    show ?thesis
    proof (cases r)
      case (Inl e)
      with Pair c1 show ?thesis by (simp add: route_request_def)
    next
      case (Inr result)
      with Pair c1 show ?thesis
        by (simp add: route_request_def replicate_to_workers_conns)
    qed
  qed
  have rd: "\<forall>target st1. select_read_host dt pm st = (Inr target, st1) \<longrightarrow>
         conns st1 = conns st @ (if current_strategy pm = ''customized''
                                 then map (\<lambda>w. (w, 3308)) (worker_hosts pm) else [])
       \<and> (\<exists>fb. conns (snd (route_request dt pm query False st))
                  = conns st1 @ (target, connection_port (Some (current_strategy pm))) # fb
               \<and> (fb = [] \<or> fb = [(manager_host pm, 3306)]))"
  proof (intro allI impI)
    fix target st1
    assume sel: "select_read_host dt pm st = (Inr target, st1)"
    let ?s = "Some (current_strategy pm)"
    from select_read_host_conns [of dt pm st] sel
    have a: "conns st1 = conns st @ (if current_strategy pm = ''customized''
                                 then map (\<lambda>w. (w, 3308)) (worker_hosts pm) else [])"
      by simp
    obtain r st2 where ex: "execute_query dt target query ?s st1 = (r, st2)"
      by (cases "execute_query dt target query ?s st1")
    from execute_query_conns [of dt target query ?s st1] ex
    have c2: "conns st2 = conns st1 @ [(target, connection_port ?s)]" by simp
    obtain r' st3 where fb: "execute_query dt (manager_host pm) query None st2 = (r', st3)"
      by (cases "execute_query dt (manager_host pm) query None st2")
    from execute_query_conns [of dt "manager_host pm" query None st2] fb
    have c3: "conns st3 = conns st2 @ [(manager_host pm, 3306)]"
      by (simp add: connection_port_def)
    have b: "\<exists>fb. conns (snd (route_request dt pm query False st))
                  = conns st1 @ (target, connection_port ?s) # fb
               \<and> (fb = [] \<or> fb = [(manager_host pm, 3306)])"
      using sel ex fb c2 c3
      by (cases r; cases r') (simp_all add: route_request_def)
    from a b show "conns st1 = conns st @ (if current_strategy pm = ''customized''
                                 then map (\<lambda>w. (w, 3308)) (worker_hosts pm) else [])
       \<and> (\<exists>fb. conns (snd (route_request dt pm query False st))
                  = conns st1 @ (target, connection_port (Some (current_strategy pm))) # fb
               \<and> (fb = [] \<or> fb = [(manager_host pm, 3306)]))" by blast
  qed
  from wr rd strategy_port_values show ?thesis by blast
qed

theorem connection_ports_by_path_witness:
  "select_read_host uneven_workers
       \<lparr>manager_host = ''m'', worker_hosts = [''w1'', ''w2'', ''w3''],
        current_strategy = ''customized''\<rparr> \<lparr>world = 0, conns = []\<rparr>
     = (Inr ''w3'', \<lparr>world = 9,
          conns = [(''w1'', 3308), (''w2'', 3308), (''w3'', 3308)]\<rparr>)
   \<and> (\<exists>fb. conns (snd (route_request uneven_workers
       \<lparr>manager_host = ''m'', worker_hosts = [''w1'', ''w2'', ''w3''],
        current_strategy = ''customized''\<rparr> ''SELECT 1'' False \<lparr>world = 0, conns = []\<rparr>))
      = [(''w1'', 3308), (''w2'', 3308), (''w3'', 3308), (''w3'', 3308)] @ fb
      \<and> (fb = [] \<or> fb = [(''m'', 3306)]))"
proof -
  let ?c = "\<lparr>manager_host = ''m'', worker_hosts = [''w1'', ''w2'', ''w3''],
        current_strategy = ''customized''\<rparr>"
  let ?st = "\<lparr>world = 0::real, conns = []\<rparr>"
  from connection_ports_by_path [of uneven_workers ?c "''SELECT 1''" ?st] uneven_select
  show ?thesis by (simp add: strategy_port_values)
qed

section \<open>QueryValidator: properties\<close>















text \<open>The same list holds \<^verbatim>\<open>;\<close>, checked on the whole query: a query whose only
  semicolon is its last character passes the multiple-statement check and is rejected by
  the signature check.\<close>

lemma trailing_semicolon_rejected:
  "\<not> contains (butlast ''SELECT 1;'') '';''
   \<and> validate_query ''SELECT 1;'' = (False, Some ''Query contains suspicious pattern: ;'')"
  by code_simp



section \<open>Gatekeeper: properties\<close>

lemma gk_forward_attempts_counts:
  "gk_request_counts (snd (snd (gk_forward_attempts env data ns gk))) = gk_request_counts gk"
  by (induction ns) (auto split: post_outcome.splits prod.splits)

lemma can_execute_refuses:
  "\<not> fst (can_execute now cb) \<Longrightarrow> can_execute now cb = (False, cb)"
  by (simp add: can_execute_def split: if_splits)

lemma tripped_breaker:
  "gk_circuit_breaker tripped_gatekeeper
     = \<lparr>failures = 5, last_failure_time = 5, state = Open\<rparr>"
  by (simp add: tripped_gatekeeper_def gk_init_def cb_init_def record_failure_def
      threshold_def Let_def)

text \<open>
  Claim C2, as stated: the Gatekeeper checks the caller's rate limit (recording the
  current timestamp) before it consults the breaker, so a request rejected by an open
  breaker has its timestamp in the caller's window. This fails: \<^verbatim>\<open>process_request\<close>
  consults the breaker first and returns at once when it is open; the window of the
  caller stays empty.
\<close>

theorem rate_limit_first_counterexample:
  "fst (process_request quiet_env tripped_gatekeeper
          (Some [''query'' \<mapsto> JStr ''SELECT 1'']) ''10.0.0.1'')
     = ErrorResponse ''Service temporarily unavailable''
   \<and> window_of (gk_request_counts (snd (snd (process_request quiet_env tripped_gatekeeper
          (Some [''query'' \<mapsto> JStr ''SELECT 1'']) ''10.0.0.1''))))
        ''10.0.0.1'' = []"
  by (simp add: process_request_def tripped_breaker can_execute_def timeout_def
      quiet_env_def window_of_def)
     (simp add: tripped_gatekeeper_def gk_init_def)

text \<open>
  Claim C2, amended: for every request handled by \<^verbatim>\<open>process_request\<close> the breaker is
  consulted first. A request rejected because the breaker is open gets the
  "temporarily unavailable" answer, nothing is forwarded and the whole state, the
  caller's rate window included, is unchanged. Every request that passes the breaker has
  its rate limit checked: whatever happens afterwards, the table of windows is the one
  the check leaves (the caller's window pruned and extended by the current timestamp).
\<close>

theorem breaker_before_rate_limit:
  "(\<not> fst (can_execute (now_breaker env) (gk_circuit_breaker gk)) \<longrightarrow>
      process_request env gk request_data client_ip
        = (ErrorResponse ''Service temporarily unavailable'', [], gk))
   \<and> (fst (can_execute (now_breaker env) (gk_circuit_breaker gk)) \<longrightarrow>
      gk_request_counts (snd (snd (process_request env gk request_data client_ip)))
        = snd (gk_check_rate_limit (now_rate env) client_ip (gk_request_counts gk)))"
proof (intro conjI impI)
  assume "\<not> fst (can_execute (now_breaker env) (gk_circuit_breaker gk))"
  then have "can_execute (now_breaker env) (gk_circuit_breaker gk)
      = (False, gk_circuit_breaker gk)" by (rule can_execute_refuses)
  then show "process_request env gk request_data client_ip
        = (ErrorResponse ''Service temporarily unavailable'', [], gk)"
    by (simp add: process_request_def)
next
  assume ok: "fst (can_execute (now_breaker env) (gk_circuit_breaker gk))"
  obtain cb where ce: "can_execute (now_breaker env) (gk_circuit_breaker gk) = (True, cb)"
    using ok by (cases "can_execute (now_breaker env) (gk_circuit_breaker gk)") simp
  obtain allowed rc where
    rl: "gk_check_rate_limit (now_rate env) client_ip (gk_request_counts gk) = (allowed, rc)"
    by (cases "gk_check_rate_limit (now_rate env) client_ip (gk_request_counts gk)")
  show "gk_request_counts (snd (snd (process_request env gk request_data client_ip)))
        = snd (gk_check_rate_limit (now_rate env) client_ip (gk_request_counts gk))"
    using ce rl
    by (simp add: process_request_def gk_forward_attempts_counts Let_def
        split: option.splits prod.splits)
qed

theorem breaker_before_rate_limit_witness:
  "\<not> fst (can_execute (now_breaker quiet_env) (gk_circuit_breaker tripped_gatekeeper))
   \<and> process_request quiet_env tripped_gatekeeper
        (Some [''query'' \<mapsto> JStr ''SELECT 1'']) ''10.0.0.1''
      = (ErrorResponse ''Service temporarily unavailable'', [], tripped_gatekeeper)
   \<and> fst (can_execute (now_breaker quiet_env) (gk_circuit_breaker gk_init))
   \<and> window_of (gk_request_counts (snd (snd (process_request quiet_env gk_init
          (Some [''query'' \<mapsto> JStr ''SELECT 1'']) ''10.0.0.1'')))) ''10.0.0.1'' = [10]"
proof -
  have a: "\<not> fst (can_execute (now_breaker quiet_env) (gk_circuit_breaker tripped_gatekeeper))"
    by (simp add: tripped_breaker can_execute_def timeout_def quiet_env_def)
  have b: "fst (can_execute (now_breaker quiet_env) (gk_circuit_breaker gk_init))"
    by (simp add: gk_init_def cb_init_def can_execute_def)
  have c: "window_of (snd (gk_check_rate_limit (now_rate quiet_env) ''10.0.0.1''
              (gk_request_counts gk_init))) ''10.0.0.1'' = [10]"
    by (simp add: gk_check_rate_limit_def check_rate_limit_def gk_init_def window_of_def
        quiet_env_def Let_def)
  from breaker_before_rate_limit [of quiet_env tripped_gatekeeper
      "Some [''query'' \<mapsto> JStr ''SELECT 1'']" "''10.0.0.1''"] a
  have 1: "process_request quiet_env tripped_gatekeeper
        (Some [''query'' \<mapsto> JStr ''SELECT 1'']) ''10.0.0.1''
      = (ErrorResponse ''Service temporarily unavailable'', [], tripped_gatekeeper)"
    by blast
  from breaker_before_rate_limit [of quiet_env gk_init
      "Some [''query'' \<mapsto> JStr ''SELECT 1'']" "''10.0.0.1''"] b c
  have 2: "window_of (gk_request_counts (snd (snd (process_request quiet_env gk_init
          (Some [''query'' \<mapsto> JStr ''SELECT 1'']) ''10.0.0.1'')))) ''10.0.0.1'' = [10]"
    by simp
  from a 1 b 2 show ?thesis by blast
qed

section \<open>Trusted Host: properties\<close>

lemma th_forward_attempts_sent:
  "p \<in> set (fst (snd (th_forward_attempts env data ns th))) \<Longrightarrow> p = data"
  by (induction ns) (auto split: post_outcome.splits prod.splits if_splits)

lemma forward_request_sent_port:
  assumes "p \<in> set (fst (snd (forward_request env th (Some rd))))"
  shows "p ''port'' = Some (JNum (real
           (case rd ''strategy'' of
              None \<Rightarrow> (case STRATEGY_PORTS (th_current_strategy th) of
                         Some n \<Rightarrow> n | None \<Rightarrow> 3306)
            | Some (JStr s) \<Rightarrow> (case STRATEGY_PORTS s of Some n \<Rightarrow> n | None \<Rightarrow> 3306)
            | Some v \<Rightarrow> 3306)))"
proof -
  obtain ok cb where ce: "can_execute (now_breaker env) (th_circuit_breaker th) = (ok, cb)"
    by (cases "can_execute (now_breaker env) (th_circuit_breaker th)")
  let ?th1 = "th\<lparr>th_circuit_breaker := cb\<rparr>"
  obtain healthy th2 where hc: "check_proxy_health env ?th1 = (healthy, th2)"
    by (cases "check_proxy_health env ?th1")
  let ?strategy = "case rd ''strategy'' of None \<Rightarrow> JStr (th_current_strategy th)
                   | Some v \<Rightarrow> v"
  from assms ce hc obtain port where
    sp: "strategy_port ?strategy = Some port"
    and mem: "p \<in> set (fst (snd (th_forward_attempts env (rd(''port'' \<mapsto> JNum (real port)))
                  [0 ..< retry_attempts] th2)))"
    by (auto simp: forward_request_def Let_def split: if_splits option.splits)
  from mem have "p = rd(''port'' \<mapsto> JNum (real port))" by (rule th_forward_attempts_sent)
  then have pp: "p ''port'' = Some (JNum (real port))" by simp
  from sp have "port = (case rd ''strategy'' of
              None \<Rightarrow> (case STRATEGY_PORTS (th_current_strategy th) of
                         Some n \<Rightarrow> n | None \<Rightarrow> 3306)
            | Some (JStr s) \<Rightarrow> (case STRATEGY_PORTS s of Some n \<Rightarrow> n | None \<Rightarrow> 3306)
            | Some v \<Rightarrow> 3306)"
    by (auto split: option.splits jval.splits)
  with pp show ?thesis by simp
qed

lemma forward_request_port_blind:
  assumes "\<forall>k. k \<noteq> ''port'' \<longrightarrow> rd1 k = rd2 k"
  shows "forward_request env th (Some rd1) = forward_request env th (Some rd2)"
proof -
  from assms have q: "rd1 ''query'' = rd2 ''query''"
    and s: "rd1 ''strategy'' = rd2 ''strategy''" by simp_all
  from assms have u: "\<And>v. rd1(''port'' \<mapsto> v) = rd2(''port'' \<mapsto> v)"
    by (intro ext) simp
  show ?thesis
    by (simp add: forward_request_def q s u Let_def
        split: prod.splits option.splits cong: option.case_cong)
qed

lemma random_trusted_host_eq:
  "random_trusted_host = \<lparr>th_circuit_breaker = cb_init, last_proxy_health_check = 0,
      th_current_strategy = ''random'', th_request_counts = Map.empty\<rparr>"
  by (simp add: random_trusted_host_def th_set_strategy_def th_init_def quiet_env_def
      STRATEGY_PORTS_def can_execute_def cb_init_def record_success_def retry_attempts_def
      upt_rec)

lemma random_forward:
  "map (\<lambda>p. p ''port'') (fst (snd (th_handle_query quiet_env random_trusted_host
          (Some [''query'' \<mapsto> JStr ''SELECT 1'']) ''10.0.0.2'')))
     = [Some (JNum 3307)]"
  by (simp add: random_trusted_host_eq th_handle_query_def th_check_rate_limit_def
      check_rate_limit_def TH_RATE_LIMIT_def window_of_def forward_request_def
      can_execute_def cb_init_def quiet_env_def STRATEGY_PORTS_def check_proxy_health_def
      health_check_interval_def retry_attempts_def upt_rec Let_def)

text \<open>
  Claim C9, as stated: the forwarded port is 3306 when the request carries no strategy.
  This fails: a missing strategy defaults to the strategy cached by the Trusted Host, so
  after a successful change to \<open>random\<close> a request without a strategy field is
  forwarded with port 3307.
\<close>

theorem missing_strategy_counterexample:
  "th_current_strategy random_trusted_host = ''random''
   \<and> [''query'' \<mapsto> JStr ''SELECT 1''] ''strategy'' = None
   \<and> map (\<lambda>p. p ''port'') (fst (snd (th_handle_query quiet_env random_trusted_host
          (Some [''query'' \<mapsto> JStr ''SELECT 1'']) ''10.0.0.2'')))
      = [Some (JNum 3307)]"
  using random_forward by (simp add: random_trusted_host_eq)

text \<open>
  Claim C9, amended: two requests to the Trusted Host that agree on every field but
  \<open>port\<close> are handled identically (same answer, same payloads forwarded, same state
  afterwards), and every payload forwarded to the Proxy carries the port mapped from the
  request's strategy field: the table entry when the field names a strategy, 3306 when
  it holds anything else, and, when the field is missing, the port of the strategy
  cached by the Trusted Host.
\<close>

theorem forwarded_port_from_strategy:
  assumes "\<forall>k. k \<noteq> ''port'' \<longrightarrow> rd1 k = rd2 k"
  shows "th_handle_query env th (Some rd1) client_ip
           = th_handle_query env th (Some rd2) client_ip
       \<and> (\<forall>p \<in> set (fst (snd (th_handle_query env th (Some rd1) client_ip))).
            p ''port'' = Some (JNum (real
              (case rd1 ''strategy'' of
                 None \<Rightarrow> (case STRATEGY_PORTS (th_current_strategy th) of
                            Some n \<Rightarrow> n | None \<Rightarrow> 3306)
               | Some (JStr s) \<Rightarrow> (case STRATEGY_PORTS s of Some n \<Rightarrow> n | None \<Rightarrow> 3306)
               | Some v \<Rightarrow> 3306))))"
proof
  show "th_handle_query env th (Some rd1) client_ip
           = th_handle_query env th (Some rd2) client_ip"
    using forward_request_port_blind [OF assms]
    by (simp add: th_handle_query_def Let_def split: prod.splits)
next
  obtain allowed rc where rl:
    "th_check_rate_limit (now_rate env) client_ip (th_request_counts th) = (allowed, rc)"
    by (cases "th_check_rate_limit (now_rate env) client_ip (th_request_counts th)")
  let ?th1 = "th\<lparr>th_request_counts := rc\<rparr>"
  show "\<forall>p \<in> set (fst (snd (th_handle_query env th (Some rd1) client_ip))).
            p ''port'' = Some (JNum (real
              (case rd1 ''strategy'' of
                 None \<Rightarrow> (case STRATEGY_PORTS (th_current_strategy th) of
                            Some n \<Rightarrow> n | None \<Rightarrow> 3306)
               | Some (JStr s) \<Rightarrow> (case STRATEGY_PORTS s of Some n \<Rightarrow> n | None \<Rightarrow> 3306)
               | Some v \<Rightarrow> 3306)))"
  proof
    fix p assume "p \<in> set (fst (snd (th_handle_query env th (Some rd1) client_ip)))"
    with rl have "p \<in> set (fst (snd (forward_request env ?th1 (Some rd1))))"
      by (simp add: th_handle_query_def Let_def split: if_splits)
    from forward_request_sent_port [OF this] show "p ''port'' = Some (JNum (real
              (case rd1 ''strategy'' of
                 None \<Rightarrow> (case STRATEGY_PORTS (th_current_strategy th) of
                            Some n \<Rightarrow> n | None \<Rightarrow> 3306)
               | Some (JStr s) \<Rightarrow> (case STRATEGY_PORTS s of Some n \<Rightarrow> n | None \<Rightarrow> 3306)
               | Some v \<Rightarrow> 3306)))" by (simp cong: option.case_cong)
  qed
qed

theorem forwarded_port_from_strategy_witness:
  "th_handle_query quiet_env th_init
       (Some [''query'' \<mapsto> JStr ''SELECT 1'', ''strategy'' \<mapsto> JStr ''customized'',
              ''port'' \<mapsto> JNum 3306]) ''10.0.0.2''
     = th_handle_query quiet_env th_init
       (Some [''query'' \<mapsto> JStr ''SELECT 1'', ''strategy'' \<mapsto> JStr ''customized''])
       ''10.0.0.2''
   \<and> map (\<lambda>p. p ''port'') (fst (snd (th_handle_query quiet_env th_init
       (Some [''query'' \<mapsto> JStr ''SELECT 1'', ''strategy'' \<mapsto> JStr ''customized'',
              ''port'' \<mapsto> JNum 3306]) ''10.0.0.2'')))
     = [Some (JNum 3308)]"
proof -
  let ?rd1 = "[''query'' \<mapsto> JStr ''SELECT 1'', ''strategy'' \<mapsto> JStr ''customized'',
              ''port'' \<mapsto> JNum 3306]"
  let ?rd2 = "[''query'' \<mapsto> JStr ''SELECT 1'', ''strategy'' \<mapsto> JStr ''customized'']"
  have h: "\<forall>k. k \<noteq> ''port'' \<longrightarrow> ?rd1 k = ?rd2 k" by simp
  have e: "map (\<lambda>p. p ''port'') (fst (snd (th_handle_query quiet_env th_init
       (Some ?rd1) ''10.0.0.2''))) = [Some (JNum 3308)]"
    by (simp add: th_init_def th_handle_query_def th_check_rate_limit_def
        check_rate_limit_def TH_RATE_LIMIT_def window_of_def forward_request_def
        can_execute_def cb_init_def quiet_env_def STRATEGY_PORTS_def check_proxy_health_def
        health_check_interval_def retry_attempts_def upt_rec Let_def)
  from forwarded_port_from_strategy [OF h, of quiet_env th_init "''10.0.0.2''"]
  have eq: "th_handle_query quiet_env th_init (Some ?rd1) ''10.0.0.2''
      = th_handle_query quiet_env th_init (Some ?rd2) ''10.0.0.2''"
    by (rule conjunct1)
  from eq e show ?thesis by (rule conjI)
qed

end
